theory Spec2Isabelle
  imports Main "HOL-Library.Sublist"
begin

section \<open>The activation engine of the CONTROL assistant (src/app.js)\<close>

text \<open>
  The program is a single-threaded browser script: a handful of module-level variables
  and a set of callbacks (button click, speech-recognition events, speech-synthesis
  events, animation frames, timers) that read and write them. The embedding keeps this
  shape. The module-level variables are the fields of one record, every callback is a
  function from the record (and the callback's arguments) to the updated record, and
  the browser is the environment that picks the next callback to run.

  What the browser holds on behalf of the script is kept in the record as well, since the
  script's behaviour depends on it: the callbacks registered with \<open>setTimeout\<close> that have
  not fired yet (with their due time and the values their closures captured), the
  utterances handed to \<open>speechSynthesis.speak\<close> that have not finished, the number of
  requested animation frames, and whether the recognition object and the camera stream
  exist. Everything the script shows or asks of the browser (log line, status display,
  spoken phrase, opened page, \<open>recognition.start()\<close>) is appended to a trace of effects.

  \<open>Date.now()\<close> is an argument \<open>now\<close> (milliseconds, an integer) of the callbacks that
  read the clock or set a timer. \<open>console.log\<close> and \<open>console.error\<close> diagnostics are not
  part of the trace, except through \<open>log()\<close>, whose text also goes to the page.
\<close>

subsection \<open>Data\<close>

datatype STATE = UNINITIALIZED | IDLE | ACTIVATED | LISTENING_FOR_COMMAND

abbreviation ACTIVATION_COOLDOWN :: int where "ACTIVATION_COOLDOWN \<equiv> 5000"
abbreviation MOTION_THRESHOLD :: int where "MOTION_THRESHOLD \<equiv> 3000"
abbreviation STABLE_THRESHOLD :: int where "STABLE_THRESHOLD \<equiv> 400"

text \<open>The \<open>data\<close> array of an \<open>ImageData\<close>: one byte per colour channel.\<close>

type_synonym frame = "nat list"

text \<open>
  The callbacks passed to \<open>setTimeout\<close>: the unmute after a spoken phrase (lines 42 and
  49), the advance to command listening (line 301), the recognition restart (line 141)
  and the palm reset (line 241), whose closure captures the \<open>motionLevel\<close> of the frame
  that scheduled it.
\<close>

datatype timer = UnpauseT | AdvanceT | RestartT | PalmResetT int

text \<open>
  The texts given to \<open>log()\<close>, one constructor per template of the source, with the
  interpolated values as arguments.
\<close>

datatype msg =
    SpeechUnsupported       \<comment> \<open>Speech recognition not supported\<close>
  | VoiceActive             \<comment> \<open>Voice recognition active\<close>
  | Heard string            \<comment> \<open>Heard: "text"\<close>
  | MicDenied               \<comment> \<open>Microphone permission denied\<close>
  | VoiceError string       \<comment> \<open>Voice error: kind\<close>
  | VoiceStartFailed        \<comment> \<open>Voice recognition failed to start\<close>
  | CameraActive            \<comment> \<open>Camera active\<close>
  | CameraDenied            \<comment> \<open>Camera access denied\<close>
  | MotionSeen int          \<comment> \<open>Motion: Nk (need 3000k)\<close>
  | PalmDetected            \<comment> \<open>Palm detected - hold still...\<close>
  | Holding nat             \<comment> \<open>Holding... N/20\<close>
  | PalmActivated           \<comment> \<open>Palm activated!\<close>
  | TooMuchMovement         \<comment> \<open>Too much movement - hold still\<close>
  | Blocked                 \<comment> \<open>Activation blocked (cooldown)\<close>
  | ActivatedBy string      \<comment> \<open>Activated by source\<close>
  | Processing string       \<comment> \<open>Processing: "text"\<close>
  | NotRecognized           \<comment> \<open>Command not recognized\<close>
  | Starting                \<comment> \<open>Starting system...\<close>
  | OnlineWelcome string    \<comment> \<open>System online - Welcome name!\<close>
  | Online                  \<comment> \<open>System online - Say 'control' or show palm\<close>

datatype effect =
    Log msg                 \<comment> \<open>\<open>log(text)\<close>\<close>
  | Status STATE            \<comment> \<open>the status display written by \<open>transitionTo\<close>\<close>
  | Speak string            \<comment> \<open>\<open>speechSynthesis.speak(utter)\<close>\<close>
  | Open string             \<comment> \<open>\<open>window.open(url, "_blank")\<close>\<close>
  | RecStart                \<comment> \<open>\<open>recognition.start()\<close>\<close>
  | Button string           \<comment> \<open>\<open>startBtn.textContent\<close>\<close>
  | Wave bool               \<comment> \<open>the \<open>active\<close> class of \<open>waveIndicator\<close>\<close>
  | GetUserMedia            \<comment> \<open>\<open>navigator.mediaDevices.getUserMedia\<close>\<close>

record state =
  currentState :: STATE
  lastActivationTime :: int
  userName :: string
  isRecognitionActive :: bool
  recognitionPaused :: bool
  lastFrame :: "frame option"
  stableFrameCount :: nat
  palmDetectionActive :: bool
  recognition :: bool                 \<comment> \<open>the recognition object has been created\<close>
  videoStream :: bool                 \<comment> \<open>\<open>video.srcObject\<close> has been set\<close>
  pendingStarts :: nat                \<comment> \<open>click handlers suspended at \<open>await\<close>\<close>
  rafPending :: nat                   \<comment> \<open>animation frames requested for \<open>detectMotion\<close>\<close>
  utterances :: "string list"         \<comment> \<open>the synthesis queue, oldest first\<close>
  timers :: "(int \<times> timer) list"      \<comment> \<open>pending timeouts: due time and callback\<close>
  effects :: "effect list"            \<comment> \<open>what the script has shown and requested, oldest first\<close>

text \<open>The values of lines 19 to 30 and 172 to 174 when the script has loaded.\<close>

definition init :: state where
  "init = \<lparr> currentState = UNINITIALIZED, lastActivationTime = 0, userName = [],
            isRecognitionActive = False, recognitionPaused = False, lastFrame = None,
            stableFrameCount = 0, palmDetectionActive = False, recognition = False,
            videoStream = False, pendingStarts = 0, rafPending = 0, utterances = [],
            timers = [], effects = [] \<rparr>"

subsection \<open>Strings\<close>

text \<open>
  A \<open>string\<close> is a list of bytes. \<open>toLowerCase\<close> maps the letters A to Z (codes 65 to
  90) to a to z by setting the bit of value 32, which is clear in these codes, and \<open>trim\<close>
  removes the ASCII white space (space, tab, line feed, vertical tab, form feed, carriage
  return) at both ends; JavaScript also lowers and trims characters outside ASCII,
  on which no statement below depends.
\<close>

definition lowerChar :: "char \<Rightarrow> char" where
  "lowerChar c =
     (let n = (of_char c :: nat)
      in if 65 \<le> n \<and> n \<le> 90
         then (case c of Char b0 b1 b2 b3 b4 b5 b6 b7 \<Rightarrow> Char b0 b1 b2 b3 b4 True b6 b7)
         else c)"

definition toLowerCase :: "string \<Rightarrow> string" where
  "toLowerCase s = map lowerChar s"

definition isSpace :: "char \<Rightarrow> bool" where
  "isSpace c = (let n = (of_char c :: nat) in n = 32 \<or> (9 \<le> n \<and> n \<le> 13))"

definition trim :: "string \<Rightarrow> string" where
  "trim s = rev (dropWhile isSpace (rev (dropWhile isSpace s)))"

fun startsWith :: "string \<Rightarrow> string \<Rightarrow> bool" where
  "startsWith s [] = True"
| "startsWith [] (p # ps) = False"
| "startsWith (c # cs) (p # ps) = (c = p \<and> startsWith cs ps)"

fun str_includes :: "string \<Rightarrow> string \<Rightarrow> bool" where
  "str_includes [] p = (p = [])"
| "str_includes (c # cs) p = (startsWith (c # cs) p \<or> str_includes cs p)"

subsection \<open>Speech (lines 32 to 150)\<close>

definition log :: "state \<Rightarrow> msg \<Rightarrow> state" where
  "log s m = s\<lparr>effects := effects s @ [Log m]\<rparr>"

definition setTimeout :: "state \<Rightarrow> int \<Rightarrow> int \<Rightarrow> timer \<Rightarrow> state" where
  "setTimeout s now delay cb = s\<lparr>timers := timers s @ [(now + delay, cb)]\<rparr>"

text \<open>
  \<open>speak\<close> sets the mute flag first and then hands the utterance to the synthesis
  service, which queues it. Its \<open>onend\<close> and \<open>onerror\<close> callbacks run when the browser
  reports the oldest queued utterance finished or failed.
\<close>

definition speak :: "state \<Rightarrow> string \<Rightarrow> state" where
  "speak s text =
     (let s1 = s\<lparr>recognitionPaused := True\<rparr>
      in s1\<lparr>utterances := utterances s1 @ [text], effects := effects s1 @ [Speak text]\<rparr>)"

definition utter_onend :: "state \<Rightarrow> int \<Rightarrow> state" where
  "utter_onend s now = setTimeout s now 3000 UnpauseT"

definition utter_onerror :: "state \<Rightarrow> int \<Rightarrow> state" where
  "utter_onerror s now = setTimeout s now 3000 UnpauseT"

definition transitionTo :: "state \<Rightarrow> STATE \<Rightarrow> state" where
  "transitionTo s newState =
     (let s1 = s\<lparr>currentState := newState\<rparr>
      in if newState = UNINITIALIZED then s1
         else s1\<lparr>effects := effects s1 @ [Status newState]\<rparr>)"

definition activate :: "state \<Rightarrow> int \<Rightarrow> string \<Rightarrow> state" where
  "activate s now source =
     (if now - lastActivationTime s < ACTIVATION_COOLDOWN then log s Blocked
      else if currentState s \<noteq> IDLE then s
      else
        let s1 = s\<lparr>lastActivationTime := now\<rparr>;
            s2 = log s1 (ActivatedBy source);
            s3 = transitionTo s2 ACTIVATED;
            greeting = (if userName s3 \<noteq> [] then ''Yes '' @ userName s3 @ '', how may I help you?''
                        else ''Yes, how may I help you?'');
            s4 = speak s3 greeting
        in setTimeout s4 now 2500 AdvanceT)"

text \<open>
  The command router \<open>handleCommand\<close> (lines 309 to 531) is a table from keywords in the
  command text to a page and a phrase. The table is not part of the activation engine,
  and it is taken here as a parameter: a function from the clock and the command text to
  the page to open, if any, the phrase to speak, and whether a keyword matched. What
  \<open>handleCommand\<close> does around the table is modelled as written: every path logs the
  command first, opens at most one page, and calls \<open>speak\<close> exactly once; the path on
  which no keyword matches logs once more after speaking. (The empty timer callback of
  line 389 has no effect and is left out.) Every statement below holds for every table.
\<close>

record reply =
  opens :: "string option"
  says :: string
  known :: bool

type_synonym router = "int \<Rightarrow> string \<Rightarrow> reply"

definition windowOpen :: "state \<Rightarrow> string \<Rightarrow> state" where
  "windowOpen s url = s\<lparr>effects := effects s @ [Open url]\<rparr>"

definition handleCommand :: "router \<Rightarrow> state \<Rightarrow> int \<Rightarrow> string \<Rightarrow> state" where
  "handleCommand route s now text =
     (let r = route now text;
          s1 = log s (Processing text);
          s2 = (case opens r of None \<Rightarrow> s1 | Some url \<Rightarrow> windowOpen s1 url);
          s3 = speak s2 (says r)
      in if known r then s3 else log s3 NotRecognized)"

definition recognition_start :: "state \<Rightarrow> state" where
  "recognition_start s = s\<lparr>effects := effects s @ [RecStart]\<rparr>"

definition restartRecognition :: "state \<Rightarrow> int \<Rightarrow> state" where
  "restartRecognition s now =
     (if isRecognitionActive s then s else setTimeout s now 100 RestartT)"

definition recognition_onstart :: "state \<Rightarrow> state" where
  "recognition_onstart s = log (s\<lparr>isRecognitionActive := True\<rparr>) VoiceActive"

text \<open>\<open>transcript\<close> is the transcript of the last result of the event.\<close>

definition recognition_onresult :: "router \<Rightarrow> state \<Rightarrow> int \<Rightarrow> string \<Rightarrow> state" where
  "recognition_onresult route s now transcript =
     (if recognitionPaused s then s
      else
        let text = trim (toLowerCase transcript);
            s1 = log s (Heard text)
        in if currentState s1 = IDLE \<and> str_includes text ''control'' then activate s1 now ''voice''
           else if currentState s1 = LISTENING_FOR_COMMAND
                then handleCommand route (transitionTo s1 IDLE) now text
           else s1)"

definition recognition_onerror :: "state \<Rightarrow> int \<Rightarrow> string \<Rightarrow> state" where
  "recognition_onerror s now err =
     (if err = ''not-allowed'' then (log s MicDenied)\<lparr>isRecognitionActive := False\<rparr>
      else if err = ''no-speech'' \<or> err = ''aborted'' then restartRecognition s now
      else restartRecognition (log s (VoiceError err)) now)"

definition recognition_onend :: "state \<Rightarrow> int \<Rightarrow> state" where
  "recognition_onend s now =
     (let s1 = s\<lparr>isRecognitionActive := False\<rparr>
      in if currentState s1 \<noteq> UNINITIALIZED then restartRecognition s1 now else s1)"

text \<open>
  \<open>supported\<close> says whether the browser has a \<open>SpeechRecognition\<close> constructor, and
  \<open>startThrows\<close> whether \<open>recognition.start()\<close> raises.
\<close>

definition startSpeech :: "state \<Rightarrow> bool \<Rightarrow> bool \<Rightarrow> state" where
  "startSpeech s supported startThrows =
     (if \<not> supported then log s SpeechUnsupported
      else
        let s1 = recognition_start (s\<lparr>recognition := True\<rparr>)
        in if startThrows then log s1 VoiceStartFailed else s1)"

subsection \<open>Camera motion (lines 153 to 253)\<close>

text \<open>
  The loop of line 188 reads every eighth byte of the current frame and the byte at the
  same index of the previous frame. Where the previous frame is shorter the read is
  \<open>undefined\<close> and the sum becomes \<open>NaN\<close>, which is \<open>None\<close> here. \<open>Math.round\<close> of the
  sum divided by 1000 rounds halves up.
\<close>

function frameDiff :: "frame \<Rightarrow> frame \<Rightarrow> int option" where
  "frameDiff [] previous = Some 0"
| "frameDiff (c # cs) [] = None"
| "frameDiff (c # cs) (p # ps) =
     map_option (\<lambda>d. \<bar>int c - int p\<bar> + d) (frameDiff (drop 7 cs) (drop 7 ps))"
  by pat_completeness auto
termination
  by (relation "measure (\<lambda>(current, previous). length current)") auto

definition motionLevelOf :: "frame \<Rightarrow> frame \<Rightarrow> int option" where
  "motionLevelOf current previous = map_option (\<lambda>diff. (diff + 500) div 1000) (frameDiff current previous)"

definition wave :: "state \<Rightarrow> bool \<Rightarrow> state" where
  "wave s on = s\<lparr>effects := effects s @ [Wave on]\<rparr>"

text \<open>Lines 194 to 248: what \<open>detectMotion\<close> does with the motion level of a frame.\<close>

definition palmLogic :: "state \<Rightarrow> int \<Rightarrow> int \<Rightarrow> state" where
  "palmLogic s now motionLevel =
     (let s1 = (if motionLevel > 1000 then log s (MotionSeen motionLevel) else s);
          s2 =
            (if motionLevel > MOTION_THRESHOLD then
               (if \<not> palmDetectionActive s1
                then wave (log (s1\<lparr>palmDetectionActive := True, stableFrameCount := 0\<rparr>) PalmDetected) True
                else s1)
             else if palmDetectionActive s1 \<and> motionLevel < STABLE_THRESHOLD then
               (let s3 = s1\<lparr>stableFrameCount := stableFrameCount s1 + 1\<rparr>;
                    s4 = (if stableFrameCount s3 mod 5 = 0 then log s3 (Holding (stableFrameCount s3)) else s3)
                in if stableFrameCount s4 \<ge> 20
                   then (activate (wave (log s4 PalmActivated) False) now ''palm'')
                          \<lparr>palmDetectionActive := False, stableFrameCount := 0\<rparr>
                   else s4)
             else if palmDetectionActive s1 \<and> motionLevel \<ge> STABLE_THRESHOLD \<and> motionLevel < MOTION_THRESHOLD then
               (if stableFrameCount s1 > 0 then (log s1 TooMuchMovement)\<lparr>stableFrameCount := 0\<rparr> else s1)
             else if palmDetectionActive s1 \<and> motionLevel \<ge> MOTION_THRESHOLD then
               log (s1\<lparr>stableFrameCount := 0\<rparr>) PalmDetected
             else s1)
      in if palmDetectionActive s2 \<and> motionLevel < 100
         then setTimeout s2 now 3000 (PalmResetT motionLevel)
         else s2)"

definition detectMotion :: "state \<Rightarrow> int \<Rightarrow> frame \<Rightarrow> state" where
  "detectMotion s now current =
     (if currentState s = UNINITIALIZED then s
      else
        let s1 = (case lastFrame s of
                    None \<Rightarrow> s
                  | Some previous \<Rightarrow>
                      if currentState s = IDLE
                      then (case motionLevelOf current previous of
                              None \<Rightarrow> s
                            | Some motionLevel \<Rightarrow> palmLogic s now motionLevel)
                      else s)
        in s1\<lparr>lastFrame := Some current, rafPending := rafPending s1 + 1\<rparr>)"

text \<open>\<open>video.onloadedmetadata\<close> (line 160), which starts the frame loop.\<close>

definition video_onloadedmetadata :: "state \<Rightarrow> state" where
  "video_onloadedmetadata s = (log s CameraActive)\<lparr>rafPending := rafPending s + 1\<rparr>"

subsection \<open>Timers\<close>

text \<open>The bodies of the four timer callbacks (lines 43 and 50, 302, 142, 242).\<close>

fun timerCallback :: "state \<Rightarrow> timer \<Rightarrow> state" where
  "timerCallback s UnpauseT = s\<lparr>recognitionPaused := False\<rparr>"
| "timerCallback s AdvanceT =
     (if currentState s = ACTIVATED then transitionTo s LISTENING_FOR_COMMAND else s)"
| "timerCallback s RestartT =
     (if currentState s \<noteq> UNINITIALIZED \<and> \<not> isRecognitionActive s then recognition_start s else s)"
| "timerCallback s (PalmResetT motionLevel) =
     (if palmDetectionActive s \<and> motionLevel < 100
      then wave (s\<lparr>palmDetectionActive := False, stableFrameCount := 0\<rparr>) False
      else s)"

text \<open>
  The browser runs the \<open>i\<close>-th pending timeout, which it does only once the timeout is
  due, and forgets it.
\<close>

definition fireTimer :: "state \<Rightarrow> int \<Rightarrow> nat \<Rightarrow> state" where
  "fireTimer s now i =
     (if i < length (timers s) \<and> fst (timers s ! i) \<le> now
      then timerCallback (s\<lparr>timers := take i (timers s) @ drop (Suc i) (timers s)\<rparr>) (snd (timers s ! i))
      else s)"

subsection \<open>Initialisation (lines 534 to 570)\<close>

text \<open>
  The click handler is asynchronous. It runs up to the \<open>getUserMedia\<close> request inside
  \<open>startCamera\<close> and is suspended there; \<open>startBtn_resume\<close> is the rest of \<open>startCamera\<close>
  followed by the rest of the handler, run when the browser grants or refuses the camera.
  \<open>nameInput\<close> is what \<open>prompt\<close> returned (\<open>None\<close> for \<open>null\<close>). No operation of the
  \<open>try\<close> block is modelled as raising, so its \<open>catch\<close> branch does not arise.
\<close>

definition startBtn_onclick :: "state \<Rightarrow> string option \<Rightarrow> state" where
  "startBtn_onclick s nameInput =
     (if currentState s \<noteq> UNINITIALIZED then s
      else
        let name = (case nameInput of
                      None \<Rightarrow> []
                    | Some n \<Rightarrow> if n \<noteq> [] \<and> trim n \<noteq> [] then trim n else []);
            s1 = s\<lparr>userName := name\<rparr>;
            s2 = s1\<lparr>effects := effects s1 @ [Button ''INITIALIZING...'']\<rparr>;
            s3 = log s2 Starting
        in s3\<lparr>pendingStarts := pendingStarts s3 + 1, effects := effects s3 @ [GetUserMedia]\<rparr>)"

definition startBtn_resume :: "state \<Rightarrow> bool \<Rightarrow> bool \<Rightarrow> bool \<Rightarrow> state" where
  "startBtn_resume s granted supported startThrows =
     (let s1 = (if granted then s\<lparr>videoStream := True\<rparr> else log s CameraDenied);
          s2 = startSpeech s1 supported startThrows;
          s3 = transitionTo s2 IDLE;
          s4 = s3\<lparr>effects := effects s3 @ [Button ''ONLINE'']\<rparr>
      in if userName s4 \<noteq> []
         then speak (log s4 (OnlineWelcome (userName s4)))
                (''Welcome '' @ userName s4 @ ''. Say control or show your palm to activate me.'')
         else log s4 Online)"

subsection \<open>The browser's events\<close>

text \<open>
  One constructor per callback the browser can run, with the clock reading where the
  callback uses it. A callback runs only when it is registered: a settlement of
  \<open>getUserMedia\<close> needs a suspended click handler, the metadata event a camera stream,
  a frame a requested animation frame, the recognition events a recognition object,
  the end of an utterance a queued utterance, and a timeout a pending timer that is due.
  An event that cannot occur leaves the state as it is.
\<close>

datatype event =
    StartClick "string option"
  | CameraSettled bool bool bool
  | VideoMetadata
  | Frame int frame
  | RecStarted
  | RecResult int string
  | RecError int string
  | RecEnded int
  | SpeechEnd int
  | SpeechError int
  | TimerFire int nat

fun step :: "router \<Rightarrow> state \<Rightarrow> event \<Rightarrow> state" where
  "step route s (StartClick nameInput) = startBtn_onclick s nameInput"
| "step route s (CameraSettled granted supported startThrows) =
     (if pendingStarts s = 0 then s
      else startBtn_resume (s\<lparr>pendingStarts := pendingStarts s - 1\<rparr>) granted supported startThrows)"
| "step route s VideoMetadata = (if videoStream s then video_onloadedmetadata s else s)"
| "step route s (Frame now current) =
     (if rafPending s = 0 then s
      else detectMotion (s\<lparr>rafPending := rafPending s - 1\<rparr>) now current)"
| "step route s RecStarted = (if recognition s then recognition_onstart s else s)"
| "step route s (RecResult now transcript) =
     (if recognition s then recognition_onresult route s now transcript else s)"
| "step route s (RecError now err) = (if recognition s then recognition_onerror s now err else s)"
| "step route s (RecEnded now) = (if recognition s then recognition_onend s now else s)"
| "step route s (SpeechEnd now) =
     (case utterances s of [] \<Rightarrow> s | u # us \<Rightarrow> utter_onend (s\<lparr>utterances := us\<rparr>) now)"
| "step route s (SpeechError now) =
     (case utterances s of [] \<Rightarrow> s | u # us \<Rightarrow> utter_onerror (s\<lparr>utterances := us\<rparr>) now)"
| "step route s (TimerFire now i) = fireTimer s now i"

definition run :: "router \<Rightarrow> state \<Rightarrow> event list \<Rightarrow> state" where
  "run route s es = foldl (step route) s es"

section \<open>Observations on states and traces\<close>

text \<open>
  An activation succeeds when it leaves \<open>IDLE\<close> for \<open>ACTIVATED\<close> and commits the clock
  reading as the time of the last activation.
\<close>

definition activation_succeeds :: "state \<Rightarrow> int \<Rightarrow> string \<Rightarrow> bool" where
  "activation_succeeds s now source =
     (currentState s = IDLE \<and> currentState (activate s now source) = ACTIVATED
       \<and> lastActivationTime (activate s now source) = now)"

text \<open>The trace with the source tag of the activation log line erased.\<close>

fun untagged :: "effect \<Rightarrow> effect" where
  "untagged (Log (ActivatedBy source)) = Log (ActivatedBy [])"
| "untagged e = e"

text \<open>
  The command texts the router was invoked with, oldest first. Logging the command is
  the first statement of \<open>handleCommand\<close> and occurs nowhere else, so the log lines of
  this template in a trace are the invocations of the router.
\<close>

fun routerCalls :: "effect list \<Rightarrow> string list" where
  "routerCalls [] = []"
| "routerCalls (Log (Processing text) # es) = text # routerCalls es"
| "routerCalls (e # es) = routerCalls es"

text \<open>What the router shows and requests after logging the command.\<close>

definition replyEffects :: "reply \<Rightarrow> effect list" where
  "replyEffects r =
     (case opens r of None \<Rightarrow> [] | Some url \<Rightarrow> [Open url]) @ [Speak (says r)]
       @ (if known r then [] else [Log NotRecognized])"

subsection \<open>Sample inputs\<close>

text \<open>
  A table for the examples, with two of the entries of \<open>handleCommand\<close>: the default
  music page (line 334) and the reply to an unknown command (line 529).
\<close>

definition sampleRouter :: router where
  "sampleRouter now text =
     (if str_includes text ''music''
      then \<lparr> opens = Some ''https://www.youtube.com/watch?v=jfKfPfyJRdk'', says = ''Playing music'', known = True \<rparr>
      else \<lparr> opens = None, says = ''Sorry, I cannot do that yet'', known = False \<rparr>)"

text \<open>
  The system after a start without a name, with camera and recognition running, and the
  same system after the wake word at 10 s, the end of the greeting at 12 s, the advance to
  command listening at 12.5 s and the unmute at 15 s.
\<close>

definition started :: state where
  "started = run sampleRouter init [StartClick None, CameraSettled True True False, RecStarted]"

definition listening :: state where
  "listening = run sampleRouter started
     [RecResult 10000 ''Hey CONTROL'', SpeechEnd 12000, TimerFire 12500 0, TimerFire 15000 0]"

text \<open>
  What follows the wake word at 10 s when a command is given: the greeting ends at 10.5 s,
  the machine advances to command listening at 12.5 s, recognition is unmuted at 13.5 s,
  and "open music" is heard at 13.6 s, which takes the machine back to \<open>IDLE\<close>.
\<close>

definition commandGiven :: "event list" where
  "commandGiven =
     [SpeechEnd 10500, TimerFire 12500 0, TimerFire 13500 0, RecResult 13600 ''open music'']"

definition idleAgain :: state where
  "idleAgain = run sampleRouter (activate started 10000 ''voice'') commandGiven"

text \<open>The same run as one list of events from the loaded script.\<close>

definition sampleTrace :: "event list" where
  "sampleTrace =
     [StartClick None, CameraSettled True True False, RecStarted,
      RecResult 10000 ''Hey CONTROL'', SpeechEnd 12000, TimerFire 12500 0, TimerFire 15000 0]"

subsection \<open>Observations for the state machine\<close>

definition engaged :: "state \<Rightarrow> bool" where
  "engaged s = (currentState s = ACTIVATED \<or> currentState s = LISTENING_FOR_COMMAND)"

text \<open>
  An accepted trigger: in \<open>IDLE\<close>, with the cooldown elapsed at the clock reading of the
  event, either a recognition result that is delivered (recognition exists and is not
  muted) and contains the wake word, or a frame that completes the palm gesture (the
  detector is armed, the frame's motion level is below the stable threshold, and it is the
  twentieth such frame).
\<close>

definition acceptedTrigger :: "state \<Rightarrow> event \<Rightarrow> bool" where
  "acceptedTrigger s e =
     (currentState s = IDLE \<and>
      (case e of
         RecResult now transcript \<Rightarrow>
           recognition s \<and> \<not> recognitionPaused s
           \<and> str_includes (trim (toLowerCase transcript)) ''control''
           \<and> now - lastActivationTime s \<ge> ACTIVATION_COOLDOWN
       | Frame now current \<Rightarrow>
           rafPending s \<noteq> 0 \<and> palmDetectionActive s \<and> stableFrameCount s + 1 \<ge> 20
           \<and> (case lastFrame s of
                 None \<Rightarrow> False
               | Some previous \<Rightarrow>
                   (case motionLevelOf current previous of
                      None \<Rightarrow> False
                    | Some motionLevel \<Rightarrow> motionLevel < STABLE_THRESHOLD))
           \<and> now - lastActivationTime s \<ge> ACTIVATION_COOLDOWN
       | _ \<Rightarrow> False))"

text \<open>The advance timer of line 301 fires, when due, while the machine is \<open>ACTIVATED\<close>.\<close>

definition advanceFired :: "state \<Rightarrow> event \<Rightarrow> bool" where
  "advanceFired s e =
     (currentState s = ACTIVATED \<and>
      (case e of
         TimerFire now i \<Rightarrow>
           i < length (timers s) \<and> fst (timers s ! i) \<le> now \<and> snd (timers s ! i) = AdvanceT
       | _ \<Rightarrow> False))"

subsection \<open>Observations for the gesture detector\<close>

text \<open>The confirmed-gesture events of a trace: the log line written right before \<open>activate("palm")\<close>.\<close>

definition gestureEvents :: "effect list \<Rightarrow> nat" where
  "gestureEvents es = length (filter (\<lambda>e. e = Log PalmActivated) es)"

text \<open>
  \<open>detectMotion\<close> on successive frames after the first, each given by the clock reading
  and by its motion level against the frame before it. The frame buffer and the request
  for the next frame are left out; \<open>detectMotion_level\<close> below relates the two.
\<close>

definition motionFrames :: "state \<Rightarrow> (int \<times> int) list \<Rightarrow> state" where
  "motionFrames s fs =
     foldl (\<lambda>s (now, motionLevel). if currentState s = IDLE then palmLogic s now motionLevel else s) s fs"

text \<open>
  The started system with the camera running and a first frame taken, and the frame
  sequence of the specification at 30 frames a second: a burst of motion 4000, ten frames
  of motion 50, a second burst, twenty frames of motion 50.
\<close>

definition watching :: state where
  "watching = run sampleRouter started [VideoMetadata, Frame 19967 [10, 20, 30, 255]]"

definition burst1 :: "(int \<times> int) list" where
  "burst1 = [(20000, 4000)]"

definition still10 :: "(int \<times> int) list" where
  "still10 = map (\<lambda>now. (now, 50))
     [20033, 20066, 20099, 20132, 20165, 20198, 20231, 20264, 20297, 20330]"

definition burst2 :: "(int \<times> int) list" where
  "burst2 = [(20363, 4000)]"

definition still20 :: "(int \<times> int) list" where
  "still20 = map (\<lambda>now. (now, 50))
     [20396, 20429, 20462, 20495, 20528, 20561, 20594, 20627, 20660, 20693,
      20726, 20759, 20792, 20825, 20858, 20891, 20924, 20957, 20990, 21023]"

definition armed10 :: state where
  "armed10 = motionFrames watching (burst1 @ still10)"

text \<open>
  A palm enters at 20 s, is still for one frame, and moves again at 21 s and at 22.99 s.
\<close>

definition renewed :: state where
  "renewed = motionFrames watching [(20000, 4000), (20033, 50), (21000, 4000), (22990, 4000)]"

subsection \<open>Sample states for the speech coordinator\<close>

text \<open>
  The system started by Ann, whose welcome phrase has ended at 4 s, and the same system
  after the palm gesture has been confirmed at 6.9 s.
\<close>

definition welcomed :: state where
  "welcomed = run sampleRouter init
     [StartClick (Some ''Ann''), CameraSettled True True False, RecStarted, SpeechEnd 4000]"

definition greeting :: state where
  "greeting = activate welcomed 6900 ''palm''"

section \<open>Evaluation of the sample states\<close>

lemmas op_defs = log_def setTimeout_def speak_def transitionTo_def windowOpen_def wave_def
  recognition_start_def

lemmas handler_defs = startBtn_onclick_def startBtn_resume_def startSpeech_def
  recognition_onstart_def recognition_onresult_def recognition_onerror_def recognition_onend_def
  restartRecognition_def utter_onend_def utter_onerror_def fireTimer_def activate_def
  handleCommand_def video_onloadedmetadata_def

lemmas string_defs = trim_def toLowerCase_def lowerChar_def isSpace_def

lemma started_eq:
  "started = \<lparr>currentState = IDLE, lastActivationTime = 0, userName = [],
    isRecognitionActive = True, recognitionPaused = False, lastFrame = None,
    stableFrameCount = 0, palmDetectionActive = False, recognition = True,
    videoStream = True, pendingStarts = 0, rafPending = 0, utterances = [],
    timers = [],
    effects =
      [Button ''INITIALIZING...'', Log Starting, GetUserMedia, RecStart,
       Status IDLE, Button ''ONLINE'', Log Online, Log VoiceActive]\<rparr>"
  by (simp add: started_def run_def init_def handler_defs op_defs Let_def)

lemma listening_eq:
  "listening = \<lparr>currentState = LISTENING_FOR_COMMAND, lastActivationTime = 10000, userName = [],
    isRecognitionActive = True, recognitionPaused = False, lastFrame = None,
    stableFrameCount = 0, palmDetectionActive = False, recognition = True,
    videoStream = True, pendingStarts = 0, rafPending = 0, utterances = [],
    timers = [],
    effects =
      [Button ''INITIALIZING...'', Log Starting, GetUserMedia, RecStart,
       Status IDLE, Button ''ONLINE'', Log Online, Log VoiceActive,
       Log (Heard ''hey control''), Log (ActivatedBy ''voice''), Status ACTIVATED,
       Speak ''Yes, how may I help you?'', Status LISTENING_FOR_COMMAND]\<rparr>"
  by (simp add: listening_def started_eq run_def handler_defs op_defs Let_def string_defs)

section \<open>The cooldown gate\<close>

lemma succeeds_iff:
  "activation_succeeds s now source \<longleftrightarrow>
     now - lastActivationTime s \<ge> ACTIVATION_COOLDOWN \<and> currentState s = IDLE"
  by (auto simp: activation_succeeds_def activate_def op_defs Let_def)

lemma activate_blocked:
  "now - lastActivationTime s < ACTIVATION_COOLDOWN \<Longrightarrow> activate s now source = log s Blocked"
  by (simp add: activate_def)

text \<open>
  Outside \<open>IDLE\<close>, where the script never calls it, \<open>activate\<close> changes nothing but the
  trace: the guard of line 289 returns before the time is committed.
\<close>

lemma activate_outside_idle:
  "currentState s \<noteq> IDLE \<Longrightarrow> (activate s now source)\<lparr>effects := effects s\<rparr> = s"
  by (simp add: activate_def log_def)

text \<open>
  The time of the last activation is written by a successful activation only, which
  moves it forward by at least the cooldown. So it never decreases, whatever callbacks
  run and whatever clock readings they carry.
\<close>

lemma lastActivationTime_activate:
  "lastActivationTime (activate s now source) =
     (if now - lastActivationTime s \<ge> ACTIVATION_COOLDOWN \<and> currentState s = IDLE
      then now else lastActivationTime s)"
  by (simp add: activate_def op_defs Let_def)

lemma lastActivationTime_palmLogic:
  "lastActivationTime s \<le> lastActivationTime (palmLogic s now m)"
  by (simp add: palmLogic_def Let_def lastActivationTime_activate op_defs)

lemma lastActivationTime_timerCallback:
  "lastActivationTime (timerCallback s cb) = lastActivationTime s"
  by (cases cb) (simp_all add: op_defs Let_def)

lemma lastActivationTime_step:
  "lastActivationTime s \<le> lastActivationTime (step route s e)"
proof (cases e)
  case (Frame now current)
  then show ?thesis
    using lastActivationTime_palmLogic [of "s\<lparr>rafPending := rafPending s - 1\<rparr>" now]
    by (auto simp: detectMotion_def Let_def split: option.splits)
next
  case (RecResult now transcript)
  then show ?thesis
    by (simp add: recognition_onresult_def Let_def lastActivationTime_activate
          handleCommand_def op_defs split: option.splits)
next
  case (TimerFire now i)
  then show ?thesis
    by (simp add: fireTimer_def lastActivationTime_timerCallback)
qed (simp_all add: startBtn_onclick_def startBtn_resume_def startSpeech_def Let_def
       video_onloadedmetadata_def recognition_onstart_def recognition_onerror_def
       recognition_onend_def restartRecognition_def utter_onend_def utter_onerror_def op_defs
       split: list.splits)

lemma lastActivationTime_run:
  "lastActivationTime s \<le> lastActivationTime (run route s es)"
proof (induction es arbitrary: s)
  case Nil
  show ?case by (simp add: run_def)
next
  case (Cons e es)
  have "lastActivationTime s \<le> lastActivationTime (step route s e)"
    by (rule lastActivationTime_step)
  also have "\<dots> \<le> lastActivationTime (run route (step route s e) es)"
    by (rule Cons.IH)
  finally show ?case
    by (simp add: run_def)
qed

text \<open>
  C1. In \<open>IDLE\<close>, where the script calls it, \<open>activate\<close> succeeds (commits the clock
  reading as the time of the last activation and takes the machine to \<open>ACTIVATED\<close>)
  exactly when the cooldown has elapsed, and when it does not succeed it changes nothing
  but the trace, where it logs the rejection. Consequently, after a success at \<open>t1\<close>,
  whatever callbacks run in between and whatever state they leave the machine in, \<open>IDLE\<close>
  again included, an activation at \<open>t2\<close> with \<open>t1 < t2\<close> and \<open>t2 - t1 < 5000\<close> is
  rejected by the cooldown.
\<close>

theorem activate_gate:
  assumes idle: "currentState s = IDLE"
  shows "(activation_succeeds s now source \<longleftrightarrow>
            now - lastActivationTime s \<ge> ACTIVATION_COOLDOWN)
   \<and> (\<not> activation_succeeds s now source \<longrightarrow>
         activate s now source = log s Blocked
         \<and> (activate s now source)\<lparr>effects := effects s\<rparr> = s)
   \<and> (t1 < t2 \<and> t2 - t1 < ACTIVATION_COOLDOWN \<and> activation_succeeds s t1 a \<longrightarrow>
        \<not> activation_succeeds (run route (activate s t1 a) es) t2 b
        \<and> activate (run route (activate s t1 a) es) t2 b
              = log (run route (activate s t1 a) es) Blocked)"
proof (intro conjI impI)
  show "activation_succeeds s now source \<longleftrightarrow> now - lastActivationTime s \<ge> ACTIVATION_COOLDOWN"
    using idle by (simp add: succeeds_iff)
next
  assume "\<not> activation_succeeds s now source"
  with idle have "now - lastActivationTime s < ACTIVATION_COOLDOWN"
    by (simp add: succeeds_iff)
  then show "activate s now source = log s Blocked"
    by (rule activate_blocked)
  then show "(activate s now source)\<lparr>effects := effects s\<rparr> = s"
    by (simp add: log_def)
next
  let ?s2 = "run route (activate s t1 a) es"
  assume h: "t1 < t2 \<and> t2 - t1 < ACTIVATION_COOLDOWN \<and> activation_succeeds s t1 a"
  then have "lastActivationTime (activate s t1 a) = t1"
    by (simp add: activation_succeeds_def)
  with lastActivationTime_run [of "activate s t1 a" route es]
  have "t1 \<le> lastActivationTime ?s2"
    by simp
  with h have blocked: "t2 - lastActivationTime ?s2 < ACTIVATION_COOLDOWN"
    by simp
  then show "activate ?s2 t2 b = log ?s2 Blocked"
    by (rule activate_blocked)
  from blocked show "\<not> activation_succeeds ?s2 t2 b"
    by (simp add: succeeds_iff)
qed

lemma idleAgain_eq:
  "idleAgain = started\<lparr>lastActivationTime := 10000, recognitionPaused := True,
      utterances := [''Playing music''],
      effects := effects started @
        [Log (ActivatedBy ''voice''), Status ACTIVATED, Speak ''Yes, how may I help you?'',
         Status LISTENING_FOR_COMMAND, Log (Heard ''open music''), Status IDLE,
         Log (Processing ''open music''), Open ''https://www.youtube.com/watch?v=jfKfPfyJRdk'',
         Speak ''Playing music'']\<rparr>"
  by (simp add: idleAgain_def commandGiven_def started_eq run_def handler_defs op_defs Let_def
        string_defs sampleRouter_def)

text \<open>
  The gate on the started system: the wake word at 10 s is accepted; a command is given
  and the machine is in \<open>IDLE\<close> again at 13.6 s; a palm gesture at 14 s is rejected by the
  cooldown and changes only the trace.
\<close>

theorem activate_gate_witness:
  "currentState started = IDLE
   \<and> activation_succeeds started 10000 ''voice''
   \<and> 10000 - lastActivationTime started \<ge> ACTIVATION_COOLDOWN
   \<and> (10000::int) < 14000 \<and> (14000::int) - 10000 < ACTIVATION_COOLDOWN
   \<and> currentState idleAgain = IDLE
   \<and> \<not> activation_succeeds idleAgain 14000 ''palm''
   \<and> activate idleAgain 14000 ''palm'' = log idleAgain Blocked
   \<and> (activate idleAgain 14000 ''palm'')\<lparr>effects := effects idleAgain\<rparr> = idleAgain"
proof -
  have i1: "currentState started = IDLE"
    by (simp add: started_eq)
  have i2: "currentState idleAgain = IDLE"
    by (simp add: idleAgain_eq started_eq)
  have c: "10000 - lastActivationTime started \<ge> ACTIVATION_COOLDOWN"
    by (simp add: started_eq)
  note g1 = activate_gate [OF i1, of 10000 "''voice''" 10000 14000 "''voice''" sampleRouter
              commandGiven "''palm''", folded idleAgain_def]
  note g2 = activate_gate [OF i2, of 14000 "''palm''" 10000 14000 "''voice''" sampleRouter
              commandGiven "''palm''"]
  from g1 c have s: "activation_succeeds started 10000 ''voice''"
    by blast
  with g1 have r: "\<not> activation_succeeds idleAgain 14000 ''palm''
      \<and> activate idleAgain 14000 ''palm'' = log idleAgain Blocked"
    by simp
  with g2 have "(activate idleAgain 14000 ''palm'')\<lparr>effects := effects idleAgain\<rparr> = idleAgain"
    by blast
  with i1 i2 c s r show ?thesis
    by simp
qed

text \<open>
  C10. For every state and clock reading, \<open>activate\<close> with the tag \<open>voice\<close> and with the
  tag \<open>palm\<close> end in the same activation state, the same time of last activation and the
  same outcome, and in the same state altogether apart from the trace; the traces differ
  only in the tag of the activation log line.
\<close>

theorem activate_source_tag:
  "currentState (activate s now ''voice'') = currentState (activate s now ''palm'')
   \<and> lastActivationTime (activate s now ''voice'') = lastActivationTime (activate s now ''palm'')
   \<and> activation_succeeds s now ''voice'' = activation_succeeds s now ''palm''
   \<and> (activate s now ''voice'')\<lparr>effects := []\<rparr> = (activate s now ''palm'')\<lparr>effects := []\<rparr>
   \<and> map untagged (effects (activate s now ''voice'')) = map untagged (effects (activate s now ''palm''))"
  by (simp add: activation_succeeds_def activate_def op_defs Let_def)

section \<open>Initialisation\<close>

text \<open>
  C9. A click on the start button while the machine is not \<open>UNINITIALIZED\<close> changes
  nothing: no field of the state, no pending callback, and no entry of the trace.
\<close>

theorem second_start_ignored:
  "currentState s \<noteq> UNINITIALIZED \<Longrightarrow> step route s (StartClick nameInput) = s"
  by (simp add: startBtn_onclick_def)

theorem second_start_ignored_witness:
  "currentState started \<noteq> UNINITIALIZED \<and> step sampleRouter started (StartClick (Some ''Ann'')) = started"
  using second_start_ignored [of started sampleRouter "Some ''Ann''"]
  by (simp add: started_eq)

section \<open>The speech coordinator\<close>

lemma paused_result: "recognitionPaused s \<Longrightarrow> step route s (RecResult now transcript) = s"
  by (simp add: recognition_onresult_def)

text \<open>
  C5. While \<open>recognitionPaused\<close> is set, recognition results leave the state and the
  trace as they are, however many arrive: nothing is logged as heard, no activation is
  tried and no command is routed.
\<close>

theorem paused_discards:
  "recognitionPaused s \<Longrightarrow>
   run route s (map (\<lambda>(now, transcript). RecResult now transcript) results) = s"
  by (induction results) (simp_all add: run_def paused_result split: prod.splits del: step.simps)

theorem paused_discards_witness:
  "recognitionPaused (speak started ''Opening files'')
   \<and> run sampleRouter (speak started ''Opening files'')
        (map (\<lambda>(now, transcript). RecResult now transcript)
           [(1000, ''control''), (1500, ''opening files''), (2000, ''open music'')])
      = speak started ''Opening files''"
  using paused_discards [of "speak started ''Opening files''" sampleRouter
          "[(1000, ''control''), (1500, ''opening files''), (2000, ''open music'')]"]
  by (simp add: speak_def)

section \<open>Command capture\<close>

lemma effects_handleCommand:
  "effects (handleCommand route s now text) =
     effects s @ Log (Processing text) # replyEffects (route now text)"
  by (simp add: handleCommand_def replyEffects_def op_defs Let_def split: option.splits)

lemma currentState_handleCommand:
  "currentState (handleCommand route s now text) = currentState s"
  by (simp add: handleCommand_def op_defs Let_def split: option.splits)

lemma routerCalls_append: "routerCalls (xs @ ys) = routerCalls xs @ routerCalls ys"
  by (induction xs rule: routerCalls.induct) auto

lemma routerCalls_reply: "routerCalls (replyEffects r) = []"
  by (simp add: replyEffects_def split: option.splits)

text \<open>
  C8. A recognition result that arrives in \<open>LISTENING_FOR_COMMAND\<close> while recognition is
  not muted is routed as a command. The router runs on the state the transition to
  \<open>IDLE\<close> has produced, the trace shows the status \<open>IDLE\<close> before the router's first
  line, and the router is invoked once, with the lower-cased and trimmed transcript.
\<close>

theorem command_capture:
  assumes "currentState s = LISTENING_FOR_COMMAND" and "\<not> recognitionPaused s"
  shows "let text = trim (toLowerCase transcript);
             idle = transitionTo (log s (Heard text)) IDLE;
             s' = recognition_onresult route s now transcript
         in currentState idle = IDLE
            \<and> s' = handleCommand route idle now text
            \<and> effects s' = effects s @ [Log (Heard text), Status IDLE, Log (Processing text)]
                              @ replyEffects (route now text)
            \<and> routerCalls (effects s') = routerCalls (effects s) @ [text]
            \<and> currentState s' = IDLE"
proof -
  define cmd where "cmd = trim (toLowerCase transcript)"
  define idle where "idle = transitionTo (log s (Heard cmd)) IDLE"
  define s' where "s' = recognition_onresult route s now transcript"
  have idle: "currentState idle = IDLE" "effects idle = effects s @ [Log (Heard cmd), Status IDLE]"
    by (simp_all add: idle_def op_defs)
  have routed: "s' = handleCommand route idle now cmd"
    using assms by (simp add: s'_def idle_def cmd_def recognition_onresult_def Let_def log_def)
  have eff: "effects s' = effects s @ [Log (Heard cmd), Status IDLE, Log (Processing cmd)]
                              @ replyEffects (route now cmd)"
    by (simp add: routed effects_handleCommand idle)
  have calls: "routerCalls (effects s') = routerCalls (effects s) @ [cmd]"
    by (simp add: eff routerCalls_append routerCalls_reply)
  have "currentState s' = IDLE"
    by (simp add: routed currentState_handleCommand idle)
  with idle routed eff calls show ?thesis
    by (simp add: Let_def cmd_def [symmetric] idle_def [symmetric] s'_def [symmetric])
qed

text \<open>The utterance "open music" in the listening system.\<close>

theorem command_capture_witness:
  "currentState listening = LISTENING_FOR_COMMAND \<and> \<not> recognitionPaused listening
   \<and> trim (toLowerCase ''open music'') = ''open music''
   \<and> routerCalls (effects listening) = []
   \<and> routerCalls (effects (recognition_onresult sampleRouter listening 16000 ''open music'')) = [] @ [''open music'']
   \<and> currentState (recognition_onresult sampleRouter listening 16000 ''open music'') = IDLE
   \<and> effects (recognition_onresult sampleRouter listening 16000 ''open music'') =
        effects listening @ [Log (Heard ''open music''), Status IDLE, Log (Processing ''open music'')]
          @ [Open ''https://www.youtube.com/watch?v=jfKfPfyJRdk'', Speak ''Playing music'']"
proof -
  have a: "currentState listening = LISTENING_FOR_COMMAND" and b: "\<not> recognitionPaused listening"
    by (simp_all add: listening_eq)
  have t: "trim (toLowerCase ''open music'') = ''open music''"
    by (simp add: string_defs)
  have r: "replyEffects (sampleRouter 16000 ''open music'') =
             [Open ''https://www.youtube.com/watch?v=jfKfPfyJRdk'', Speak ''Playing music'']"
    by (simp add: replyEffects_def sampleRouter_def)
  have c: "routerCalls (effects listening) = []"
    by (simp add: listening_eq)
  note cc = command_capture [OF a b, of "''open music''" sampleRouter 16000, unfolded Let_def t r c]
  from a b t c cc show ?thesis
    by blast
qed

section \<open>The state machine\<close>

lemma currentState_ops [simp]:
  "currentState (log s m) = currentState s"
  "currentState (setTimeout s now d cb) = currentState s"
  "currentState (speak s text) = currentState s"
  "currentState (windowOpen s url) = currentState s"
  "currentState (wave s on) = currentState s"
  "currentState (recognition_start s) = currentState s"
  "currentState (transitionTo s st) = st"
  by (simp_all add: op_defs Let_def)

lemma lastActivationTime_ops [simp]:
  "lastActivationTime (log s m) = lastActivationTime s"
  "lastActivationTime (wave s on) = lastActivationTime s"
  by (simp_all add: op_defs)

lemma currentState_activate:
  "currentState (activate s now source) =
     (if now - lastActivationTime s \<ge> ACTIVATION_COOLDOWN \<and> currentState s = IDLE
      then ACTIVATED else currentState s)"
  by (simp add: activate_def Let_def)

lemma currentState_palmLogic:
  "currentState (palmLogic s now m) =
     (if m < STABLE_THRESHOLD \<and> palmDetectionActive s \<and> stableFrameCount s + 1 \<ge> 20
         \<and> now - lastActivationTime s \<ge> ACTIVATION_COOLDOWN \<and> currentState s = IDLE
      then ACTIVATED else currentState s)"
  by (simp add: palmLogic_def Let_def currentState_activate)
     (auto simp: op_defs)

lemma currentState_timerCallback:
  "currentState (timerCallback s cb) =
     (if cb = AdvanceT \<and> currentState s = ACTIVATED then LISTENING_FOR_COMMAND else currentState s)"
  by (cases cb) simp_all

text \<open>
  One callback, from any state: the machine enters \<open>ACTIVATED\<close> only by an accepted
  trigger, and \<open>LISTENING_FOR_COMMAND\<close> only by the advance timer firing in \<open>ACTIVATED\<close>;
  and an accepted trigger does enter \<open>ACTIVATED\<close>.
\<close>

lemma step_activated:
  assumes h: "currentState (step route s e) = ACTIVATED"
  shows "currentState s = ACTIVATED \<or> acceptedTrigger s e"
proof (cases e)
  case (Frame now current)
  with h show ?thesis
    by (auto simp: acceptedTrigger_def detectMotion_def Let_def currentState_palmLogic
             split: if_splits option.splits)
next
  case (RecResult now transcript)
  with h show ?thesis
    by (auto simp: acceptedTrigger_def recognition_onresult_def Let_def currentState_activate
          currentState_handleCommand split: if_splits)
next
  case (TimerFire now i)
  with h show ?thesis
    by (auto simp: fireTimer_def currentState_timerCallback split: if_splits)
qed (use h in \<open>auto simp: startBtn_onclick_def startBtn_resume_def startSpeech_def Let_def
       video_onloadedmetadata_def recognition_onstart_def recognition_onerror_def
       recognition_onend_def restartRecognition_def utter_onend_def utter_onerror_def
       split: if_splits list.splits\<close>)

lemma step_listening:
  assumes h: "currentState (step route s e) = LISTENING_FOR_COMMAND"
  shows "currentState s = LISTENING_FOR_COMMAND \<or> advanceFired s e"
proof (cases e)
  case (Frame now current)
  with h show ?thesis
    by (auto simp: detectMotion_def Let_def currentState_palmLogic
             split: if_splits option.splits)
next
  case (RecResult now transcript)
  with h show ?thesis
    by (auto simp: recognition_onresult_def Let_def currentState_activate
          currentState_handleCommand split: if_splits)
next
  case (TimerFire now i)
  with h show ?thesis
    by (auto simp: advanceFired_def fireTimer_def currentState_timerCallback split: if_splits)
qed (use h in \<open>auto simp: startBtn_onclick_def startBtn_resume_def startSpeech_def Let_def
       video_onloadedmetadata_def recognition_onstart_def recognition_onerror_def
       recognition_onend_def restartRecognition_def utter_onend_def utter_onerror_def
       split: if_splits list.splits\<close>)

lemma accepted_activates:
  "acceptedTrigger s e \<Longrightarrow> currentState (step route s e) = ACTIVATED"
  by (cases e)
     (auto simp: acceptedTrigger_def recognition_onresult_def Let_def currentState_activate
        detectMotion_def currentState_palmLogic split: option.splits)

lemma advance_listens:
  "advanceFired s e \<Longrightarrow> currentState (step route s e) = LISTENING_FOR_COMMAND"
  by (cases e) (auto simp: advanceFired_def fireTimer_def)

lemma run_snoc: "run route s (es @ [e]) = step route (run route s es) e"
  by (simp add: run_def)

lemma not_engaged_init: "\<not> engaged init"
  by (simp add: engaged_def init_def)

lemma engaged_step:
  assumes "engaged (step route s x)" and "\<not> engaged s"
  shows "acceptedTrigger s x \<and> currentState (step route s x) = ACTIVATED"
proof -
  have "currentState (step route s x) \<noteq> LISTENING_FOR_COMMAND"
    using step_listening [of route s x] assms(2) by (auto simp: engaged_def advanceFired_def)
  with assms(1) have a: "currentState (step route s x) = ACTIVATED"
    by (simp add: engaged_def)
  with step_activated [OF a] assms(2) show ?thesis
    by (simp add: engaged_def)
qed

text \<open>
  C2. Take any sequence of callbacks run from the loaded script. If the machine ends in
  \<open>ACTIVATED\<close> or \<open>LISTENING_FOR_COMMAND\<close>, the sequence splits at an accepted trigger:
  a wake-word utterance or a completed gesture that arrived in \<open>IDLE\<close> with the cooldown
  elapsed and put the machine in \<open>ACTIVATED\<close>, after which the machine stayed in one of
  the two states up to the end. If it ends in \<open>LISTENING_FOR_COMMAND\<close>, then in between
  the advance timer fired while the machine was \<open>ACTIVATED\<close>.
\<close>

theorem engaged_origin:
  assumes "engaged (run route init es)"
  shows "\<exists>pre e post. es = pre @ e # post
           \<and> acceptedTrigger (run route init pre) e
           \<and> currentState (run route init (pre @ [e])) = ACTIVATED
           \<and> (\<forall>p. prefix p post \<longrightarrow> engaged (run route init (pre @ e # p)))
           \<and> (currentState (run route init es) = LISTENING_FOR_COMMAND \<longrightarrow>
                 (\<exists>p x. prefix (p @ [x]) post \<and> advanceFired (run route init (pre @ e # p)) x))"
  using assms
proof (induction es rule: rev_induct)
  case Nil
  then show ?case
    by (simp add: run_def not_engaged_init)
next
  case (snoc x es)
  let ?s = "run route init es"
  have s': "run route init (es @ [x]) = step route ?s x"
    by (rule run_snoc)
  show ?case
  proof (cases "engaged ?s")
    case False
    with snoc.prems have acc: "acceptedTrigger ?s x" and act: "currentState (step route ?s x) = ACTIVATED"
      using engaged_step [of route ?s x] by (simp_all add: s')
    have "es @ [x] = es @ x # []"
      by simp
    moreover have "\<forall>p. prefix p [] \<longrightarrow> engaged (run route init (es @ x # p))"
      using snoc.prems by simp
    moreover have "currentState (run route init (es @ [x])) \<noteq> LISTENING_FOR_COMMAND"
      using act by (simp add: s')
    ultimately show ?thesis
      using acc act s' by - (rule exI [of _ es], rule exI [of _ x], rule exI [of _ "[]"], simp)
  next
    case True
    from snoc.IH [OF True] obtain pre e post where
      es: "es = pre @ e # post"
      and acc: "acceptedTrigger (run route init pre) e"
      and act: "currentState (run route init (pre @ [e])) = ACTIVATED"
      and all: "\<forall>p. prefix p post \<longrightarrow> engaged (run route init (pre @ e # p))"
      and adv: "currentState ?s = LISTENING_FOR_COMMAND \<longrightarrow>
                 (\<exists>p y. prefix (p @ [y]) post \<and> advanceFired (run route init (pre @ e # p)) y)"
      by blast
    have split: "es @ [x] = pre @ e # (post @ [x])"
      by (simp add: es)
    have all': "\<forall>p. prefix p (post @ [x]) \<longrightarrow> engaged (run route init (pre @ e # p))"
    proof (intro allI impI)
      fix p assume "prefix p (post @ [x])"
      then consider "prefix p post" | "p = post @ [x]"
        by (auto simp: prefix_snoc)
      then show "engaged (run route init (pre @ e # p))"
      proof cases
        case 1
        with all show ?thesis by blast
      next
        case 2
        with snoc.prems split show ?thesis by simp
      qed
    qed
    have adv': "\<exists>p y. prefix (p @ [y]) (post @ [x]) \<and> advanceFired (run route init (pre @ e # p)) y"
      if l: "currentState (run route init (es @ [x])) = LISTENING_FOR_COMMAND"
    proof -
      from l have "currentState (step route ?s x) = LISTENING_FOR_COMMAND"
        by (simp add: s')
      from step_listening [OF this] show ?thesis
      proof
        assume "currentState ?s = LISTENING_FOR_COMMAND"
        with adv obtain p y where py: "prefix (p @ [y]) post"
          and fired: "advanceFired (run route init (pre @ e # p)) y"
          by blast
        from py have "prefix (p @ [y]) (post @ [x])"
          by (simp add: prefix_prefix)
        with fired show ?thesis
          by - (rule exI [of _ p], rule exI [of _ y], simp)
      next
        assume "advanceFired ?s x"
        then have "advanceFired (run route init (pre @ e # post)) x"
          by (simp add: es)
        moreover have "prefix (post @ [x]) (post @ [x])"
          by simp
        ultimately show ?thesis
          by - (rule exI [of _ post], rule exI [of _ x], simp)
      qed
    qed
    show ?thesis
    proof (rule exI [of _ pre], rule exI [of _ e], rule exI [of _ "post @ [x]"], intro conjI impI)
      show "es @ [x] = pre @ e # post @ [x]" by (rule split)
      show "acceptedTrigger (run route init pre) e" by (rule acc)
      show "currentState (run route init (pre @ [e])) = ACTIVATED" by (rule act)
      show "\<forall>p. prefix p (post @ [x]) \<longrightarrow> engaged (run route init (pre @ e # p))" by (rule all')
      show "\<exists>p y. prefix (p @ [y]) (post @ [x]) \<and> advanceFired (run route init (pre @ e # p)) y"
        if "currentState (run route init (es @ [x])) = LISTENING_FOR_COMMAND"
        using that by (rule adv')
    qed
  qed
qed

lemma run_sampleTrace: "run sampleRouter init sampleTrace = listening"
  by (simp add: listening_def started_def sampleTrace_def run_def del: step.simps)

text \<open>The sample run ends in command listening; its trigger is the wake word at 10 s.\<close>

theorem engaged_origin_witness:
  "engaged (run sampleRouter init sampleTrace)
   \<and> currentState (run sampleRouter init sampleTrace) = LISTENING_FOR_COMMAND
   \<and> (\<exists>pre e post. sampleTrace = pre @ e # post
         \<and> acceptedTrigger (run sampleRouter init pre) e
         \<and> currentState (run sampleRouter init (pre @ [e])) = ACTIVATED
         \<and> (\<exists>p x. prefix (p @ [x]) post \<and> advanceFired (run sampleRouter init (pre @ e # p)) x))"
proof -
  have lis: "currentState (run sampleRouter init sampleTrace) = LISTENING_FOR_COMMAND"
    by (simp add: run_sampleTrace listening_eq)
  then have eng: "engaged (run sampleRouter init sampleTrace)"
    by (simp add: engaged_def)
  from engaged_origin [OF eng] obtain pre e post where
    "sampleTrace = pre @ e # post"
    "acceptedTrigger (run sampleRouter init pre) e"
    "currentState (run sampleRouter init (pre @ [e])) = ACTIVATED"
    "currentState (run sampleRouter init sampleTrace) = LISTENING_FOR_COMMAND \<longrightarrow>
       (\<exists>p x. prefix (p @ [x]) post \<and> advanceFired (run sampleRouter init (pre @ e # p)) x)"
    by blast
  with lis eng show ?thesis
    by blast
qed

section \<open>The gesture detector\<close>

lemmas palm_defs = palmLogic_def activate_def op_defs Let_def

text \<open>
  \<open>detectMotion\<close> on a frame after the first is \<open>palmLogic\<close> at the frame's motion level
  when the machine is in \<open>IDLE\<close>, and only buffers the frame otherwise.
\<close>

lemma detectMotion_level:
  assumes "lastFrame s = Some previous" and "motionLevelOf current previous = Some motionLevel"
    and "currentState s \<noteq> UNINITIALIZED"
  shows "detectMotion s now current =
           (let s1 = (if currentState s = IDLE then palmLogic s now motionLevel else s)
            in s1\<lparr>lastFrame := Some current, rafPending := rafPending s1 + 1\<rparr>)"
  using assms by (simp add: detectMotion_def Let_def)

lemma motionFrames_append: "motionFrames s (fs @ gs) = motionFrames (motionFrames s fs) gs"
  by (simp add: motionFrames_def)

lemma motionFrames_not_idle: "currentState s \<noteq> IDLE \<Longrightarrow> motionFrames s fs = s"
  by (induction fs) (simp_all add: motionFrames_def split: prod.splits)

text \<open>
  While the detector is armed, a frame above the motion threshold takes the first branch
  of the chain (line 203), whose body is guarded by \<open>!palmDetectionActive\<close>: it logs the
  motion and changes nothing else. The branch that resets the count (line 233) is reached
  at the threshold itself only.
\<close>

lemma armed_big_motion:
  "palmDetectionActive s \<Longrightarrow> motionLevel > MOTION_THRESHOLD \<Longrightarrow>
   palmLogic s now motionLevel = log s (MotionSeen motionLevel)"
  by (simp add: palmLogic_def log_def)

lemma armed_threshold_motion:
  "palmDetectionActive s \<Longrightarrow>
   palmLogic s now MOTION_THRESHOLD =
     log ((log s (MotionSeen MOTION_THRESHOLD))\<lparr>stableFrameCount := 0\<rparr>) PalmDetected"
  by (simp add: palmLogic_def log_def)

lemma watching_eq:
  "watching = started\<lparr>lastFrame := Some [10, 20, 30, 255], rafPending := 1,
      effects := effects started @ [Log CameraActive]\<rparr>"
  by (simp add: watching_def started_eq run_def video_onloadedmetadata_def detectMotion_def log_def)

lemma armed10_eq:
  "armed10 = \<lparr>currentState = IDLE, lastActivationTime = 0, userName = [],
    isRecognitionActive = True, recognitionPaused = False,
    lastFrame = Some [10, 20, 30, 255], stableFrameCount = 10,
    palmDetectionActive = True, recognition = True, videoStream = True,
    pendingStarts = 0, rafPending = 1, utterances = [],
    timers =
      [(23033, PalmResetT 50), (23066, PalmResetT 50),
       (23099, PalmResetT 50), (23132, PalmResetT 50),
       (23165, PalmResetT 50), (23198, PalmResetT 50),
       (23231, PalmResetT 50), (23264, PalmResetT 50),
       (23297, PalmResetT 50), (23330, PalmResetT 50)],
    effects =
      [Button ''INITIALIZING...'', Log Starting, GetUserMedia, RecStart,
       Status IDLE, Button ''ONLINE'', Log Online, Log VoiceActive,
       Log CameraActive, Log (MotionSeen 4000), Log PalmDetected, Wave True,
       Log (Holding 5), Log (Holding 10)]\<rparr>"
  by (simp add: armed10_def motionFrames_def watching_eq started_eq burst1_def still10_def palm_defs)

lemma after_burst2: "motionFrames armed10 burst2 = log armed10 (MotionSeen 4000)"
  by (simp add: motionFrames_def burst2_def armed10_eq palm_defs)

lemma nine_still:
  "motionFrames (log armed10 (MotionSeen 4000)) (take 9 still20) =
   armed10\<lparr>stableFrameCount := 19,
      timers := timers armed10 @ map (\<lambda>now. (now + 3000, PalmResetT 50))
         [20396, 20429, 20462, 20495, 20528, 20561, 20594, 20627, 20660],
      effects := effects armed10 @ [Log (MotionSeen 4000), Log (Holding 15)]\<rparr>"
  by (simp add: motionFrames_def still20_def armed10_eq palm_defs)

lemma ten_still:
  "motionFrames (log armed10 (MotionSeen 4000)) (take 10 still20) =
   armed10\<lparr>currentState := ACTIVATED, lastActivationTime := 20693, recognitionPaused := True,
      stableFrameCount := 0, palmDetectionActive := False,
      utterances := [''Yes, how may I help you?''],
      timers := timers armed10 @ map (\<lambda>now. (now + 3000, PalmResetT 50))
         [20396, 20429, 20462, 20495, 20528, 20561, 20594, 20627, 20660] @ [(23193, AdvanceT)],
      effects := effects armed10 @ [Log (MotionSeen 4000), Log (Holding 15), Log (Holding 20),
         Log PalmActivated, Wave False, Log (ActivatedBy ''palm''), Status ACTIVATED,
         Speak ''Yes, how may I help you?'']\<rparr>"
  by (simp add: motionFrames_def still20_def armed10_eq palm_defs)

lemma twenty_still:
  "motionFrames (log armed10 (MotionSeen 4000)) still20 =
   motionFrames (log armed10 (MotionSeen 4000)) (take 10 still20)"
proof -
  have "still20 = take 10 still20 @ drop 10 still20"
    by simp
  then have "motionFrames (log armed10 (MotionSeen 4000)) still20 =
      motionFrames (motionFrames (log armed10 (MotionSeen 4000)) (take 10 still20)) (drop 10 still20)"
    by (metis motionFrames_append)
  also have "\<dots> = motionFrames (log armed10 (MotionSeen 4000)) (take 10 still20)"
    by (rule motionFrames_not_idle) (simp add: ten_still)
  finally show ?thesis .
qed

text \<open>
  C3, on the code. After the first burst and ten still frames the detector is armed with
  a count of 10. The second burst of motion 4000 leaves the count at 10: it is not reset.
  The nine still frames that follow confirm no gesture, the tenth does, and the whole
  sequence confirms one gesture. The event fires on the tenth still frame after the
  second burst, not on the twentieth.
\<close>

theorem second_burst_keeps_count:
  "palmDetectionActive armed10 \<and> stableFrameCount armed10 = 10
   \<and> palmDetectionActive (motionFrames armed10 burst2)
   \<and> stableFrameCount (motionFrames armed10 burst2) = 10
   \<and> gestureEvents (effects (motionFrames watching (burst1 @ still10 @ burst2 @ take 9 still20))) = 0
   \<and> gestureEvents (effects (motionFrames watching (burst1 @ still10 @ burst2 @ take 10 still20))) = 1
   \<and> gestureEvents (effects (motionFrames watching (burst1 @ still10 @ burst2 @ still20))) = 1"
proof -
  have pre: "motionFrames watching (burst1 @ still10 @ burst2 @ fs) =
             motionFrames (log armed10 (MotionSeen 4000)) fs" for fs
    using motionFrames_append [of watching "burst1 @ still10" "burst2 @ fs"]
          motionFrames_append [of armed10 burst2 fs]
    by (simp add: armed10_def [symmetric] after_burst2)
  have "gestureEvents (effects (motionFrames (log armed10 (MotionSeen 4000)) (take 9 still20))) = 0"
    by (simp only: nine_still) (simp add: gestureEvents_def armed10_eq)
  moreover
  have ten: "gestureEvents (effects (motionFrames (log armed10 (MotionSeen 4000)) (take 10 still20))) = 1"
    by (simp only: ten_still) (simp add: gestureEvents_def armed10_eq)
  moreover
  have "palmDetectionActive armed10 \<and> stableFrameCount armed10 = 10
        \<and> palmDetectionActive (motionFrames armed10 burst2)
        \<and> stableFrameCount (motionFrames armed10 burst2) = 10"
    by (simp only: after_burst2) (simp add: armed10_eq log_def)
  ultimately show ?thesis
    by (simp add: pre twenty_still)
qed

lemma renewed_eq:
  "renewed = watching\<lparr>stableFrameCount := 1, palmDetectionActive := True,
      timers := [(23033, PalmResetT 50)],
      effects := effects watching @ [Log (MotionSeen 4000), Log PalmDetected, Wave True,
         Log (MotionSeen 4000), Log (MotionSeen 4000)]\<rparr>"
  by (simp add: renewed_def motionFrames_def watching_eq started_eq palm_defs)

text \<open>
  The palm-reset callback tests the motion level its closure captured at the frame that
  scheduled it, which was below 100 then, so it disarms whenever the detector is armed at
  the moment it fires.
\<close>

lemma palm_reset_disarms:
  "motionLevel < 100 \<Longrightarrow>
   \<not> palmDetectionActive (timerCallback s (PalmResetT motionLevel))
   \<and> (palmDetectionActive s \<longrightarrow> stableFrameCount (timerCallback s (PalmResetT motionLevel)) = 0)"
  by (simp add: wave_def)

text \<open>
  C7, on the code. The palm enters at 20 s; the one still frame at 20.033 s schedules the
  reset for 23.033 s; the palm moves again at 21 s and at 22.99 s, and the detector is
  still armed. The reset fires at 23.033 s and disarms the detector, 43 ms after the last
  big motion.
\<close>

theorem reset_fires_despite_motion:
  "palmDetectionActive renewed \<and> timers renewed = [(23033, PalmResetT 50)]
   \<and> \<not> palmDetectionActive (step sampleRouter renewed (TimerFire 23033 0))
   \<and> stableFrameCount (step sampleRouter renewed (TimerFire 23033 0)) = 0"
  by (simp add: renewed_eq watching_eq started_eq fireTimer_def wave_def)

section \<open>Recognition errors and spoken feedback\<close>

text \<open>
  A \<open>not-allowed\<close> error marks the session inactive, writes the notice, and leaves the
  machine's state and the pending timers as they are.
\<close>

lemma not_allowed_error:
  "recognition_onerror s now ''not-allowed'' = (log s MicDenied)\<lparr>isRecognitionActive := False\<rparr>"
  by (simp add: recognition_onerror_def)

text \<open>
  The end of the session that follows the error schedules a restart, whatever ended the
  session, and the restart callback calls \<open>recognition.start()\<close>.
\<close>

lemma end_schedules_restart:
  "currentState s \<noteq> UNINITIALIZED \<Longrightarrow>
   recognition_onend s now = s\<lparr>isRecognitionActive := False, timers := timers s @ [(now + 100, RestartT)]\<rparr>"
  by (simp add: recognition_onend_def restartRecognition_def setTimeout_def)

text \<open>
  C4, on the code. In the started system the microphone is refused at 30 s. The error
  marks the session inactive and leaves the machine in \<open>IDLE\<close>, the end of the session
  one millisecond later schedules a restart for 30.101 s, and the restart calls
  \<open>recognition.start()\<close>.
\<close>

theorem denied_session_restarts:
  "\<not> isRecognitionActive (step sampleRouter started (RecError 30000 ''not-allowed''))
   \<and> currentState (step sampleRouter started (RecError 30000 ''not-allowed'')) = currentState started
   \<and> timers (run sampleRouter started [RecError 30000 ''not-allowed'', RecEnded 30001]) = [(30101, RestartT)]
   \<and> effects (run sampleRouter started
                 [RecError 30000 ''not-allowed'', RecEnded 30001, TimerFire 30101 0])
       = effects started @ [Log MicDenied, RecStart]"
  by (simp add: run_def started_eq handler_defs op_defs)

text \<open>
  \<open>speak\<close> sets the mute flag on the state it hands to the synthesis service, and the end
  or failure of an utterance schedules the unmute 3000 ms later. The callbacks are the
  same, and neither cancels a timer scheduled before.
\<close>

lemma speak_mutes:
  "recognitionPaused (speak s text) \<and> utterances (speak s text) = utterances s @ [text]
   \<and> timers (speak s text) = timers s"
  by (simp add: speak_def Let_def)

lemma utterance_end_schedules_unmute:
  "utter_onend s now = s\<lparr>timers := timers s @ [(now + 3000, UnpauseT)]\<rparr>
   \<and> utter_onerror s now = utter_onend s now"
  by (simp add: utter_onend_def utter_onerror_def setTimeout_def)

lemma welcomed_eq:
  "welcomed = \<lparr>currentState = IDLE, lastActivationTime = 0, userName = ''Ann'',
    isRecognitionActive = True, recognitionPaused = True, lastFrame = None,
    stableFrameCount = 0, palmDetectionActive = False, recognition = True,
    videoStream = True, pendingStarts = 0, rafPending = 0, utterances = [],
    timers = [(7000, UnpauseT)],
    effects =
      [Button ''INITIALIZING...'', Log Starting, GetUserMedia, RecStart,
       Status IDLE, Button ''ONLINE'', Log (OnlineWelcome ''Ann''),
       Speak ''Welcome Ann. Say control or show your palm to activate me.'',
       Log VoiceActive]\<rparr>"
  by (simp add: welcomed_def run_def init_def handler_defs op_defs Let_def string_defs)

lemma greeting_eq:
  "greeting = welcomed\<lparr>currentState := ACTIVATED, lastActivationTime := 6900,
      utterances := [''Yes Ann, how may I help you?''],
      timers := [(7000, UnpauseT), (9400, AdvanceT)],
      effects := effects welcomed @ [Log (ActivatedBy ''palm''), Status ACTIVATED,
         Speak ''Yes Ann, how may I help you?'']\<rparr>"
  by (simp add: greeting_def welcomed_eq activate_def op_defs Let_def)

text \<open>
  C6, on the code. Ann's welcome phrase ends at 4 s and schedules the unmute for 7 s. The
  palm gesture at 6.9 s starts the greeting, which mutes recognition again. The timer of
  the welcome phrase fires at 7 s and unmutes recognition while the greeting is still in
  the synthesis queue: the earlier completion governs the unmute time. When the advance
  timer has fired at 9.4 s, the recognised greeting is routed as a command.
\<close>

theorem earlier_completion_unmutes:
  "recognitionPaused greeting \<and> utterances greeting = [''Yes Ann, how may I help you?'']
   \<and> timers greeting = [(7000, UnpauseT), (9400, AdvanceT)]
   \<and> \<not> recognitionPaused (step sampleRouter greeting (TimerFire 7000 0))
   \<and> utterances (step sampleRouter greeting (TimerFire 7000 0)) = [''Yes Ann, how may I help you?'']
   \<and> routerCalls (effects (run sampleRouter greeting
         [TimerFire 7000 0, TimerFire 9400 0, RecResult 9500 ''Yes Ann how may I help you'']))
       = [''yes ann how may i help you'']"
  by (simp add: greeting_eq welcomed_eq run_def handler_defs op_defs Let_def string_defs
        sampleRouter_def)

end
